theory Spec2Isabelle
  imports Main "HOL-Library.AList"
begin

section \<open>Python values: exceptions, the model classes, decimal strings\<close>

text \<open>
  The storage module \<^verbatim>\<open>requestbin/storage/redis.py\<close> is embedded as state-passing
  functions over a \<open>world\<close>: the Redis key space, the server clock, the random source
  behind \<^verbatim>\<open>tinyid\<close>, and the list of Redis commands issued so far. A Python
  exception is the \<open>Inl\<close> of a result; the world is returned in both cases, since the
  commands issued before the exception stay issued.
\<close>

datatype exn = TypeError | KeyError | RuntimeError | ValueError | ResponseError | OtherError

text \<open>
  Modelled from the spec: the classes \<^verbatim>\<open>Request\<close> and \<^verbatim>\<open>Bin\<close> of
  \<^verbatim>\<open>requestbin/models.py\<close> are not among the sources. The data model of the
  specification gives a Request an id and an opaque payload, and a Bin a name, a creation
  timestamp with seconds resolution, a visibility flag and a request sequence that is
  empty on creation.
\<close>

record request =
  req_id :: string
  payload :: string

record bin =
  name :: string
  created :: int
  private_flag :: bool
  requests :: "request list"

text \<open>
  The serialisers of the model classes are not among the sources either and are taken
  as parameters: \<open>dump\<close> yields the stored bytes, \<open>load\<close> receives what Redis
  returned (\<open>None\<close> for a missing key) and returns the object or raises.
\<close>

record models =
  Bin_dump :: "bin \<Rightarrow> string"
  Bin_load :: "string option \<Rightarrow> exn + bin"
  Request_dump :: "request \<Rightarrow> string"
  Request_load :: "string option \<Rightarrow> exn + request"

text \<open>The instance: \<^verbatim>\<open>self.prefix\<close> (from the configuration) and \<^verbatim>\<open>self.bin_ttl\<close>.\<close>

record storage =
  prefix :: string
  bin_ttl :: int

text \<open>
  \<^verbatim>\<open>int(...)\<close> around a timestamp: creation times and the retention window are whole
  seconds, on which Python's \<^verbatim>\<open>int\<close> is the identity.
\<close>

definition py_int :: "int \<Rightarrow> int" where
  "py_int x = x"

text \<open>Python 2 \<^verbatim>\<open>map(f, xs)\<close> for an \<open>f\<close> that may raise: left to right, the first
  exception ends it.\<close>

fun py_map :: "('a \<Rightarrow> exn + 'b) \<Rightarrow> 'a list \<Rightarrow> exn + 'b list" where
  "py_map f [] = Inr []"
| "py_map f (x # xs) =
     (case f x of
        Inl e \<Rightarrow> Inl e
      | Inr y \<Rightarrow> (case py_map f xs of Inl e \<Rightarrow> Inl e | Inr ys \<Rightarrow> Inr (y # ys)))"

subsection \<open>Decimal strings\<close>

definition digit_char :: "nat \<Rightarrow> char" where
  "digit_char d = char_of (48 + d)"

definition is_digit :: "char \<Rightarrow> bool" where
  "is_digit c = (48 \<le> (of_char c :: nat) \<and> (of_char c :: nat) \<le> 57)"

definition digit_val :: "char \<Rightarrow> nat" where
  "digit_val c = of_char c - 48"

fun str_of_nat :: "nat \<Rightarrow> string" where
  "str_of_nat n = (if n < 10 then [digit_char n] else str_of_nat (n div 10) @ [digit_char (n mod 10)])"

declare str_of_nat.simps [simp del]

definition str_of_int :: "int \<Rightarrow> string" where
  "str_of_int i = (if i < 0 then CHR ''-'' # str_of_nat (nat (- i)) else str_of_nat (nat i))"

definition nat_of_digits :: "string \<Rightarrow> nat option" where
  "nat_of_digits s =
     (if s \<noteq> [] \<and> list_all is_digit s
      then Some (foldl (\<lambda>a c. 10 * a + digit_val c) 0 s) else None)"

text \<open>
  Python's \<^verbatim>\<open>int(s)\<close> on a string: an optional sign and decimal digits. (Python also
  accepts surrounding blanks and underscores between digits; Redis never stores such a
  counter, and those strings are \<open>None\<close> here like every other non-number.)
\<close>

definition py_int_of_str :: "string \<Rightarrow> int option" where
  "py_int_of_str s =
     (case s of
        [] \<Rightarrow> None
      | c # cs \<Rightarrow>
          if c = CHR ''-'' then map_option (\<lambda>n. - int n) (nat_of_digits cs)
          else if c = CHR ''+'' then map_option int (nat_of_digits cs)
          else map_option int (nat_of_digits s))"

text \<open>
  What Redis accepts as the integer behind \<^verbatim>\<open>INCR\<close>: exactly the canonical decimal
  representation of a signed 64-bit value.
\<close>

definition redis_int_of_str :: "string \<Rightarrow> int option" where
  "redis_int_of_str s =
     (case py_int_of_str s of
        None \<Rightarrow> None
      | Some i \<Rightarrow>
          if s = str_of_int i \<and> - (2 ^ 63) \<le> i \<and> i < 2 ^ 63 then Some i else None)"

section \<open>The Redis server\<close>

text \<open>
  A key holds a string or a list, and may carry an expiration timestamp (whole seconds).
  The key space is an association list so that \<^verbatim>\<open>KEYS\<close> can enumerate it. Expiry is
  lazy, as in Redis: an entry whose timestamp has been reached stays in the list and is
  invisible to every command.
\<close>

datatype rval = RString string | RList "string list"

type_synonym entry = "rval \<times> int option"

datatype cmd =
    SET string string
  | SETNX string string
  | GET string
  | DEL string
  | EXPIREAT string int
  | RPUSH string string
  | LLEN string
  | LRANGE string int int
  | MGET "string list"
  | INCR string
  | KEYS string

record world =
  store :: "(string \<times> entry) list"
  clock :: int
  rnd :: "nat \<Rightarrow> string"
  pos :: nat
  log :: "cmd list"

definition expired :: "int \<Rightarrow> int option \<Rightarrow> bool" where
  "expired now e = (case e of None \<Rightarrow> False | Some t \<Rightarrow> t \<le> now)"

definition live :: "world \<Rightarrow> string \<Rightarrow> rval option" where
  "live w k =
     (case map_of (store w) k of
        None \<Rightarrow> None
      | Some (v, e) \<Rightarrow> if expired (clock w) e then None else Some v)"

definition expiry :: "world \<Rightarrow> string \<Rightarrow> int option" where
  "expiry w k = (case map_of (store w) k of None \<Rightarrow> None | Some (v, e) \<Rightarrow> e)"

definition put :: "string \<Rightarrow> entry \<Rightarrow> cmd \<Rightarrow> world \<Rightarrow> world" where
  "put k en c w = w\<lparr>store := AList.update k en (store w), log := log w @ [c]\<rparr>"

definition logged :: "cmd \<Rightarrow> world \<Rightarrow> world" where
  "logged c w = w\<lparr>log := log w @ [c]\<rparr>"

definition redis_set :: "string \<Rightarrow> string \<Rightarrow> world \<Rightarrow> world" where
  "redis_set k v w = put k (RString v, None) (SET k v) w"

definition redis_setnx :: "string \<Rightarrow> string \<Rightarrow> world \<Rightarrow> bool \<times> world" where
  "redis_setnx k v w =
     (case live w k of
        None \<Rightarrow> (True, put k (RString v, None) (SETNX k v) w)
      | Some _ \<Rightarrow> (False, logged (SETNX k v) w))"

definition redis_get :: "string \<Rightarrow> world \<Rightarrow> (exn + string option) \<times> world" where
  "redis_get k w =
     (case live w k of
        None \<Rightarrow> (Inr None, logged (GET k) w)
      | Some (RString s) \<Rightarrow> (Inr (Some s), logged (GET k) w)
      | Some (RList _) \<Rightarrow> (Inl ResponseError, logged (GET k) w))"

definition redis_delete :: "string \<Rightarrow> world \<Rightarrow> world" where
  "redis_delete k w = w\<lparr>store := AList.delete k (store w), log := log w @ [DEL k]\<rparr>"

text \<open>\<^verbatim>\<open>EXPIREAT\<close> on a missing key does nothing; a timestamp that is not in the
  future deletes the key at once.\<close>

definition redis_expireat :: "string \<Rightarrow> int \<Rightarrow> world \<Rightarrow> world" where
  "redis_expireat k t w =
     (case live w k of
        None \<Rightarrow> logged (EXPIREAT k t) w
      | Some v \<Rightarrow>
          if t \<le> clock w
          then w\<lparr>store := AList.delete k (store w), log := log w @ [EXPIREAT k t]\<rparr>
          else put k (v, Some t) (EXPIREAT k t) w)"

definition redis_rpush :: "string \<Rightarrow> string \<Rightarrow> world \<Rightarrow> (exn + nat) \<times> world" where
  "redis_rpush k x w =
     (case live w k of
        None \<Rightarrow> (Inr 1, put k (RList [x], None) (RPUSH k x) w)
      | Some (RList xs) \<Rightarrow> (Inr (length xs + 1), put k (RList (xs @ [x]), expiry w k) (RPUSH k x) w)
      | Some (RString _) \<Rightarrow> (Inl ResponseError, logged (RPUSH k x) w))"

definition redis_llen :: "string \<Rightarrow> world \<Rightarrow> (exn + nat) \<times> world" where
  "redis_llen k w =
     (case live w k of
        None \<Rightarrow> (Inr 0, logged (LLEN k) w)
      | Some (RList xs) \<Rightarrow> (Inr (length xs), logged (LLEN k) w)
      | Some (RString _) \<Rightarrow> (Inl ResponseError, logged (LLEN k) w))"

text \<open>\<^verbatim>\<open>LRANGE key start stop\<close>: both ends inclusive, negative indices count from the
  end, out-of-range ends are clamped.\<close>

definition lrange_slice :: "string list \<Rightarrow> int \<Rightarrow> int \<Rightarrow> string list" where
  "lrange_slice xs start stop =
     (let n = int (length xs);
          a = (if start < 0 then max 0 (n + start) else start);
          b = (if stop < 0 then n + stop else stop);
          b' = (if n \<le> b then n - 1 else b)
      in if b' < a \<or> n \<le> a then [] else take (nat (b' - a + 1)) (drop (nat a) xs))"

definition redis_lrange :: "string \<Rightarrow> int \<Rightarrow> int \<Rightarrow> world \<Rightarrow> (exn + string list) \<times> world" where
  "redis_lrange k start stop w =
     (case live w k of
        None \<Rightarrow> (Inr [], logged (LRANGE k start stop) w)
      | Some (RList xs) \<Rightarrow> (Inr (lrange_slice xs start stop), logged (LRANGE k start stop) w)
      | Some (RString _) \<Rightarrow> (Inl ResponseError, logged (LRANGE k start stop) w))"

text \<open>\<^verbatim>\<open>MGET\<close> never fails: a missing key and a key of another type both read as
  nil.\<close>

definition mget_one :: "world \<Rightarrow> string \<Rightarrow> string option" where
  "mget_one w k = (case live w k of Some (RString s) \<Rightarrow> Some s | _ \<Rightarrow> None)"

definition redis_mget :: "string list \<Rightarrow> world \<Rightarrow> string option list \<times> world" where
  "redis_mget ks w = (map (mget_one w) ks, logged (MGET ks) w)"

definition redis_incr :: "string \<Rightarrow> world \<Rightarrow> (exn + int) \<times> world" where
  "redis_incr k w =
     (case live w k of
        None \<Rightarrow> (Inr 1, put k (RString (str_of_int 1), None) (INCR k) w)
      | Some (RList _) \<Rightarrow> (Inl ResponseError, logged (INCR k) w)
      | Some (RString s) \<Rightarrow>
          (case redis_int_of_str s of
             None \<Rightarrow> (Inl ResponseError, logged (INCR k) w)
           | Some i \<Rightarrow>
               if i + 1 < 2 ^ 63
               then (Inr (i + 1), put k (RString (str_of_int (i + 1)), expiry w k) (INCR k) w)
               else (Inl ResponseError, logged (INCR k) w)))"

subsection \<open>Glob patterns of \<^verbatim>\<open>KEYS\<close>\<close>

text \<open>
  The pattern language of Redis: \<open>*\<close> matches any run of characters, \<open>?\<close> one
  character, \<open>[...]\<close> a character class (with \<open>^\<close> for negation, \<open>a-z\<close> ranges and
  backslash escapes inside), a backslash takes the next character literally.
\<close>

fun class_scan :: "string \<Rightarrow> char \<Rightarrow> bool \<Rightarrow> bool \<times> string" where
  "class_scan [] c m = (m, [])"
| "class_scan (p # ps) c m =
     (if p = CHR 0x5C \<and> ps \<noteq> [] then class_scan (tl ps) c (m \<or> hd ps = c)
      else if p = CHR '']'' then (m, ps)
      else (case ps of
              d # e # ps' \<Rightarrow>
                if d = CHR ''-''
                then class_scan ps' c
                       (m \<or> (min (of_char p :: nat) (of_char e) \<le> of_char c
                             \<and> (of_char c :: nat) \<le> max (of_char p) (of_char e)))
                else class_scan ps c (m \<or> p = c)
            | _ \<Rightarrow> class_scan ps c (m \<or> p = c)))"

lemma class_scan_length: "length (snd (class_scan ps c m)) \<le> length ps"
proof (induction ps c m rule: class_scan.induct)
  case (1 c m)
  show ?case by simp
next
  case (2 p ps c m)
  show ?case
  proof (cases "p = CHR 0x5C \<and> ps \<noteq> []")
    case True
    with "2.IH"(1) have "length (snd (class_scan (tl ps) c (m \<or> hd ps = c))) \<le> length (tl ps)"
      by simp
    with True show ?thesis by simp
  next
    case nesc: False
    show ?thesis
    proof (cases "p = CHR '']''")
      case True
      with nesc show ?thesis by simp
    next
      case nclose: False
      show ?thesis
      proof (cases ps)
        case Nil
        from "2.IH"(2) [OF nesc nclose Nil] Nil nesc nclose show ?thesis by simp
      next
        case outer: (Cons d qs)
        show ?thesis
        proof (cases qs)
          case Nil
          from "2.IH"(3) [OF nesc nclose outer Nil] outer Nil nesc nclose
          show ?thesis by simp
        next
          case (Cons e ps')
          show ?thesis
          proof (cases "d = CHR ''-''")
            case True
            from "2.IH"(4) [OF nesc nclose outer Cons True] outer Cons nesc nclose True
            show ?thesis by simp
          next
            case False
            from "2.IH"(5) [OF nesc nclose outer Cons False] outer Cons nesc nclose False
            show ?thesis by simp
          qed
        qed
      qed
    qed
  qed
qed

function glob_match :: "string \<Rightarrow> string \<Rightarrow> bool" where
  "glob_match [] s = (s = [])"
| "glob_match (p # ps) s =
     (if p = CHR ''*'' then
        glob_match ps s \<or> (case s of [] \<Rightarrow> False | _ # s' \<Rightarrow> glob_match (p # ps) s')
      else (case s of
              [] \<Rightarrow> False
            | c # s' \<Rightarrow>
                if p = CHR ''?'' then glob_match ps s'
                else if p = CHR ''['' then
                  (let neg = (ps \<noteq> [] \<and> hd ps = CHR ''^'');
                       r = class_scan (if neg then tl ps else ps) c False
                   in (fst r \<noteq> neg) \<and> glob_match (snd r) s')
                else if p = CHR 0x5C \<and> ps \<noteq> [] then hd ps = c \<and> glob_match (tl ps) s'
                else p = c \<and> glob_match ps s'))"
  by pat_completeness auto
termination
proof (relation "measure (\<lambda>(p, s). length p + length s)", goal_cases)
  case (5 p ps s c s' neg r)
  have "length (snd (class_scan (if neg then tl ps else ps) c False))
          \<le> length (if neg then tl ps else ps)"
    by (rule class_scan_length)
  also have "\<dots> \<le> length ps" by simp
  finally show ?case using 5 by simp
qed simp_all

definition live_keys :: "world \<Rightarrow> string list" where
  "live_keys w = filter (\<lambda>k. live w k \<noteq> None) (remdups (map fst (store w)))"

definition redis_keys :: "string \<Rightarrow> world \<Rightarrow> string list \<times> world" where
  "redis_keys pat w = (filter (glob_match pat) (live_keys w), logged (KEYS pat) w)"


section \<open>The random source and the model classes\<close>

text \<open>
  Modelled from the spec: \<^verbatim>\<open>util.tinyid\<close> is not among the sources. It returns a
  short random identifier; here the next string of the world's random source, whatever
  the requested length.
\<close>

definition tinyid :: "nat \<Rightarrow> world \<Rightarrow> string \<times> world" where
  "tinyid n w = (rnd w (pos w), w\<lparr>pos := Suc (pos w)\<rparr>)"

text \<open>
  Modelled from the spec: the constructors. \<^verbatim>\<open>Bin(private)\<close> has a fresh name, the
  current time as creation time, the given flag and no requests; \<^verbatim>\<open>Request(input)\<close>
  holds the payload under a freshly generated id.
\<close>

definition Bin_init :: "bool \<Rightarrow> world \<Rightarrow> bin \<times> world" where
  "Bin_init p w =
     (let (nm, w') = tinyid 8 w
      in (\<lparr>name = nm, created = clock w', private_flag = p, requests = []\<rparr>, w'))"

definition Request_init :: "string \<Rightarrow> world \<Rightarrow> request \<times> world" where
  "Request_init input w =
     (let (i, w') = tinyid 6 w in (\<lparr>req_id = i, payload = input\<rparr>, w'))"

section \<open>RedisStorage\<close>

subsection \<open>Key schema\<close>

definition key_bin :: "storage \<Rightarrow> string \<Rightarrow> string" where
  "key_bin self nm = prefix self @ '':bins:'' @ nm @ '':details''"

definition key_request_list :: "storage \<Rightarrow> string \<Rightarrow> string" where
  "key_request_list self bin_name = prefix self @ '':bins:'' @ bin_name @ '':requests''"

definition key_request :: "storage \<Rightarrow> string \<Rightarrow> string \<Rightarrow> string" where
  "key_request self bin_name request_id =
     prefix self @ '':bins:'' @ bin_name @ '':requests:'' @ request_id"

definition request_count_key :: "storage \<Rightarrow> string" where
  "request_count_key self = prefix self @ '':requests''"

subsection \<open>create_bin\<close>

definition create_bin :: "models \<Rightarrow> storage \<Rightarrow> bool \<Rightarrow> world \<Rightarrow> bin \<times> world" where
  "create_bin M self p w =
     (let (b, w1) = Bin_init p w;
          key = key_bin self (name b);
          w2 = redis_set key (Bin_dump M b) w1;
          w3 = redis_expireat key (py_int (created b + bin_ttl self)) w2
      in (b, w3))"

subsection \<open>create_request\<close>

text \<open>
  The loop \<^verbatim>\<open>for i in range(50)\<close>: the first argument counts the iterations left.
  The key is computed once before the loop and is not recomputed when the id is
  regenerated; the serialised request is recomputed at every attempt.
\<close>

fun setnx_loop :: "nat \<Rightarrow> models \<Rightarrow> string \<Rightarrow> request \<Rightarrow> world \<Rightarrow> bool \<times> request \<times> world" where
  "setnx_loop 0 M key r w = (False, r, w)"
| "setnx_loop (Suc n) M key r w =
     (case redis_setnx key (Request_dump M r) w of
        (True, w') \<Rightarrow> (True, r, w')
      | (False, w') \<Rightarrow>
          (let (i, w'') = tinyid 6 w' in setnx_loop n M key (r\<lparr>req_id := i\<rparr>) w''))"

text \<open>The function has no \<^verbatim>\<open>return\<close> statement: its result is \<^verbatim>\<open>None\<close>, the unit
  value here.\<close>

definition create_request ::
  "models \<Rightarrow> storage \<Rightarrow> bin \<Rightarrow> string \<Rightarrow> world \<Rightarrow> (exn + unit) \<times> world" where
  "create_request M self b input w =
     (let (r0, w0) = Request_init input w;
          key_req = key_request self (name b) (req_id r0);
          (write_successful, r, w1) = setnx_loop 50 M key_req r0 w0
      in if \<not> write_successful then (Inl RuntimeError, w1)
         else
           let w2 = redis_expireat key_req (py_int (created b + bin_ttl self + 2)) w1;
               key_list = key_request_list self (name b)
           in (case redis_rpush key_list (req_id r) w2 of
                 (Inl e, w3) \<Rightarrow> (Inl e, w3)
               | (Inr _, w3) \<Rightarrow>
                   (let w4 = redis_expireat key_list (py_int (created b + bin_ttl self + 1)) w3;
                        w5 = snd (redis_setnx (request_count_key self) (str_of_int 0) w4)
                    in (case redis_incr (request_count_key self) w5 of
                          (Inl e, w6) \<Rightarrow> (Inl e, w6)
                        | (Inr _, w6) \<Rightarrow> (Inr (), w6)))))"

subsection \<open>Statistics\<close>

definition count_bins :: "storage \<Rightarrow> world \<Rightarrow> nat \<times> world" where
  "count_bins self w =
     (let (keys, w') = redis_keys (prefix self @ ''_*'') w in (length keys, w'))"

text \<open>\<^verbatim>\<open>int(self.redis.get(key) or 0)\<close>: a missing key and the empty string are falsy
  and read as 0.\<close>

definition count_requests :: "storage \<Rightarrow> world \<Rightarrow> (exn + int) \<times> world" where
  "count_requests self w =
     (case redis_get (request_count_key self) w of
        (Inl e, w') \<Rightarrow> (Inl e, w')
      | (Inr None, w') \<Rightarrow> (Inr 0, w')
      | (Inr (Some s), w') \<Rightarrow>
          if s = [] then (Inr 0, w')
          else (case py_int_of_str s of
                  None \<Rightarrow> (Inl ValueError, w')
                | Some i \<Rightarrow> (Inr i, w')))"

subsection \<open>lookup_bin\<close>

text \<open>
  The body of the \<^verbatim>\<open>try\<close> block. Under Python 2, which the module is written for,
  \<^verbatim>\<open>map\<close> returns a list and \<^verbatim>\<open>reversed\<close> accepts it.
\<close>

definition lookup_try ::
  "models \<Rightarrow> storage \<Rightarrow> string \<Rightarrow> string option \<Rightarrow> world \<Rightarrow> (exn + bin) \<times> world" where
  "lookup_try M self nm serialized_bin w =
     (case Bin_load M serialized_bin of
        Inl e \<Rightarrow> (Inl e, w)
      | Inr b \<Rightarrow>
          (let key_list = key_request_list self nm
           in (case redis_llen key_list w of
                 (Inl e, w1) \<Rightarrow> (Inl e, w1)
               | (Inr request_count, w1) \<Rightarrow>
                   (if request_count > 0 then
                      (case redis_lrange key_list 0 (int request_count - 1) w1 of
                         (Inl e, w2) \<Rightarrow> (Inl e, w2)
                       | (Inr request_ids, w2) \<Rightarrow>
                           (let request_keys = map (key_request self nm) request_ids;
                                (serialized_requests, w3) = redis_mget request_keys w2
                            in (case py_map (Request_load M) serialized_requests of
                                  Inl e \<Rightarrow> (Inl e, w3)
                                | Inr rs \<Rightarrow> (Inr (b\<lparr>requests := rev rs\<rparr>), w3))))
                    else (Inr b, w1)))))"

text \<open>The handler catches \<^verbatim>\<open>TypeError\<close> only; any other exception leaves the
  function as it is. The \<^verbatim>\<open>GET\<close> precedes the \<^verbatim>\<open>try\<close>.\<close>

definition lookup_bin ::
  "models \<Rightarrow> storage \<Rightarrow> string \<Rightarrow> world \<Rightarrow> (exn + bin) \<times> world" where
  "lookup_bin M self nm w =
     (let key = key_bin self nm
      in case redis_get key w of
           (Inl e, w1) \<Rightarrow> (Inl e, w1)
         | (Inr serialized_bin, w1) \<Rightarrow>
             (case lookup_try M self nm serialized_bin w1 of
                (Inl e, w2) \<Rightarrow>
                  if e = TypeError then (Inl KeyError, redis_delete key w2) else (Inl e, w2)
              | (Inr b, w2) \<Rightarrow> (Inr b, w2)))"

section \<open>Auxiliary notions for the statements\<close>

text \<open>The world after the first two commands of a \<open>create_request\<close> whose first
  write succeeds, and after the following three.\<close>

definition after_write :: "models \<Rightarrow> storage \<Rightarrow> bin \<Rightarrow> string \<Rightarrow> world \<Rightarrow> world" where
  "after_write M self b input w =
     redis_expireat (key_request self (name b) (rnd w (pos w))) (created b + bin_ttl self + 2)
       (snd (redis_setnx (key_request self (name b) (rnd w (pos w)))
              (Request_dump M \<lparr>req_id = rnd w (pos w), payload = input\<rparr>)
              (w\<lparr>pos := Suc (pos w)\<rparr>)))"

definition after_append :: "models \<Rightarrow> storage \<Rightarrow> bin \<Rightarrow> string \<Rightarrow> world \<Rightarrow> world" where
  "after_append M self b input w =
     snd (redis_setnx (request_count_key self) (str_of_int 0)
       (redis_expireat (key_request_list self (name b)) (created b + bin_ttl self + 1)
         (snd (redis_rpush (key_request_list self (name b)) (rnd w (pos w))
                (after_write M self b input w)))))"

text \<open>The commands issued between two worlds, and the expirations among them.\<close>

definition issued :: "world \<Rightarrow> world \<Rightarrow> cmd list" where
  "issued w w' = drop (length (log w)) (log w')"

fun expirations :: "cmd list \<Rightarrow> (string \<times> int) list" where
  "expirations [] = []"
| "expirations (EXPIREAT k t # cs) = (k, t) # expirations cs"
| "expirations (c # cs) = expirations cs"

text \<open>
  A concrete instance for the examples: a deployment prefix and retention window, a
  line-oriented serialisation whose \<open>load\<close> raises \<^verbatim>\<open>TypeError\<close> on \<open>None\<close> and
  \<^verbatim>\<open>ValueError\<close> on malformed text, a random source, and an empty server.
\<close>

definition ex_storage :: storage where
  "ex_storage = \<lparr>prefix = ''requestbin'', bin_ttl = 172800\<rparr>"

definition field_sep :: char where
  "field_sep = CHR ''|''"

definition field_head :: "string \<Rightarrow> string" where
  "field_head s = takeWhile (\<lambda>c. c \<noteq> field_sep) s"

definition field_tail :: "string \<Rightarrow> string" where
  "field_tail s = tl (dropWhile (\<lambda>c. c \<noteq> field_sep) s)"

definition ex_models :: models where
  "ex_models =
     \<lparr>Bin_dump = (\<lambda>b. name b @ field_sep # str_of_int (created b) @ field_sep
                      # (if private_flag b then ''1'' else ''0'')),
      Bin_load = (\<lambda>d. case d of
          None \<Rightarrow> Inl TypeError
        | Some s \<Rightarrow>
            (case py_int_of_str (field_head (field_tail s)) of
               None \<Rightarrow> Inl ValueError
             | Some t \<Rightarrow>
                 if field_tail (field_tail s) = ''1'' \<or> field_tail (field_tail s) = ''0''
                 then Inr \<lparr>name = field_head s, created = t,
                           private_flag = (field_tail (field_tail s) = ''1''), requests = []\<rparr>
                 else Inl ValueError)),
      Request_dump = (\<lambda>r. req_id r @ field_sep # payload r),
      Request_load = (\<lambda>d. case d of
          None \<Rightarrow> Inl TypeError
        | Some s \<Rightarrow>
            if field_sep \<in> set s
            then Inr \<lparr>req_id = field_head s, payload = field_tail s\<rparr>
            else Inl ValueError)\<rparr>"

fun ex_rnd :: "nat \<Rightarrow> string" where
  "ex_rnd 0 = ''vxkq2mzp''"
| "ex_rnd (Suc 0) = ''a1b2c3''"
| "ex_rnd (Suc (Suc 0)) = ''d4e5f6''"
| "ex_rnd (Suc (Suc (Suc n))) = ''g7h8i9''"

definition ex_world :: world where
  "ex_world = \<lparr>store = [], clock = 1700000000, rnd = ex_rnd, pos = 0, log = []\<rparr>"

definition ex_bin :: bin where
  "ex_bin = \<lparr>name = ''vxkq2mzp'', created = 1700000000, private_flag = False, requests = []\<rparr>"

text \<open>A server on which the id that the random source keeps returning is taken.\<close>

definition ex_world_taken :: world where
  "ex_world_taken =
     \<lparr>store = [(''requestbin:bins:vxkq2mzp:requests:a1b2c3'', (RString ''a1b2c3|hello'', None))],
      clock = 1700000000, rnd = (\<lambda>n. ''a1b2c3''), pos = 0, log = []\<rparr>"

text \<open>The counter key is absent or holds an integer that \<^verbatim>\<open>INCR\<close> can increment; the
  index key is absent or holds a list.\<close>

definition counter_ready :: "storage \<Rightarrow> world \<Rightarrow> bool" where
  "counter_ready self w =
     (case live w (request_count_key self) of
        None \<Rightarrow> True
      | Some (RList xs) \<Rightarrow> False
      | Some (RString s) \<Rightarrow>
          (case redis_int_of_str s of None \<Rightarrow> False | Some n \<Rightarrow> n + 1 < 2 ^ 63))"

definition index_ready :: "storage \<Rightarrow> string \<Rightarrow> world \<Rightarrow> bool" where
  "index_ready self nm w =
     (case live w (key_request_list self nm) of Some (RString s) \<Rightarrow> False | _ \<Rightarrow> True)"

text \<open>The example server after one \<open>create_bin\<close>.\<close>

definition ex_world_bin :: world where
  "ex_world_bin = snd (create_bin ex_models ex_storage False ex_world)"

definition after_reads :: "storage \<Rightarrow> string \<Rightarrow> string list \<Rightarrow> world \<Rightarrow> world" where
  "after_reads self nm ids w =
     logged (MGET (map (key_request self nm) ids))
       (logged (LRANGE (key_request_list self nm) 0 (int (length ids) - 1))
         (logged (LLEN (key_request_list self nm)) w))"




text \<open>The server when its clock reads \<open>t\<close>, no command having been issued meanwhile.\<close>

definition at_time :: "int \<Rightarrow> world \<Rightarrow> world" where
  "at_time t w = w\<lparr>clock := t\<rparr>"

section \<open>Properties\<close>

subsection \<open>Decimal strings: printing and parsing agree\<close>

lemma is_digit_digit_char: "d < 10 \<Longrightarrow> is_digit (digit_char d)"
  by (simp add: is_digit_def digit_char_def)

lemma digit_val_digit_char: "d < 10 \<Longrightarrow> digit_val (digit_char d) = d"
  by (simp add: digit_val_def digit_char_def)

lemma str_of_nat_nonempty: "str_of_nat n \<noteq> []"
  by (subst str_of_nat.simps) simp

lemma str_of_nat_digits: "list_all is_digit (str_of_nat n)"
proof (induction n rule: str_of_nat.induct)
  case (1 n)
  show ?case
  proof (cases "n < 10")
    case True
    then show ?thesis by (subst str_of_nat.simps) (simp add: is_digit_digit_char)
  next
    case False
    with 1 show ?thesis by (subst str_of_nat.simps) (simp add: is_digit_digit_char)
  qed
qed

lemma str_of_nat_value: "foldl (\<lambda>a c. 10 * a + digit_val c) 0 (str_of_nat n) = n"
proof (induction n rule: str_of_nat.induct)
  case (1 n)
  show ?case
  proof (cases "n < 10")
    case True
    then show ?thesis by (subst str_of_nat.simps) (simp add: digit_val_digit_char)
  next
    case False
    with 1 show ?thesis by (subst str_of_nat.simps) (simp add: digit_val_digit_char)
  qed
qed

lemma nat_of_digits_str_of_nat: "nat_of_digits (str_of_nat n) = Some n"
  by (simp add: nat_of_digits_def str_of_nat_nonempty str_of_nat_digits str_of_nat_value)

lemma str_of_nat_hd: "hd (str_of_nat n) \<noteq> CHR ''-'' \<and> hd (str_of_nat n) \<noteq> CHR ''+''"
proof -
  have "is_digit (hd (str_of_nat n))"
    using str_of_nat_digits [of n] str_of_nat_nonempty [of n]
    by (cases "str_of_nat n") simp_all
  then show ?thesis by (auto simp: is_digit_def)
qed

lemma py_int_of_str_of_int: "py_int_of_str (str_of_int i) = Some i"
proof (cases "i < 0")
  case True
  then show ?thesis
    by (simp add: py_int_of_str_def str_of_int_def nat_of_digits_str_of_nat)
next
  case False
  obtain c cs where s: "str_of_nat (nat i) = c # cs"
    using str_of_nat_nonempty [of "nat i"] by (cases "str_of_nat (nat i)") auto
  from str_of_nat_hd [of "nat i"] s have "c \<noteq> CHR ''-''" "c \<noteq> CHR ''+''" by simp_all
  moreover from nat_of_digits_str_of_nat [of "nat i"] s
  have "nat_of_digits (c # cs) = Some (nat i)" by simp
  ultimately show ?thesis using False s
    by (simp add: py_int_of_str_def str_of_int_def)
qed

lemma redis_int_of_str_of_int:
  "- (2 ^ 63) \<le> i \<Longrightarrow> i < 2 ^ 63 \<Longrightarrow> redis_int_of_str (str_of_int i) = Some i"
  by (simp add: redis_int_of_str_def py_int_of_str_of_int)

lemma redis_int_of_str_SomeD:
  "redis_int_of_str s = Some i \<Longrightarrow> s = str_of_int i \<and> py_int_of_str s = Some i"
  by (auto simp: redis_int_of_str_def split: option.splits if_splits)

lemma str_of_int_nonempty: "str_of_int i \<noteq> []"
  by (simp add: str_of_int_def str_of_nat_nonempty)

subsection \<open>The key space under each command\<close>

lemma put_fields [simp]:
  "store (put k en c w) = AList.update k en (store w)"
  "clock (put k en c w) = clock w"
  "rnd (put k en c w) = rnd w"
  "pos (put k en c w) = pos w"
  "log (put k en c w) = log w @ [c]"
  by (simp_all add: put_def)

lemma logged_fields [simp]:
  "store (logged c w) = store w"
  "clock (logged c w) = clock w"
  "rnd (logged c w) = rnd w"
  "pos (logged c w) = pos w"
  "log (logged c w) = log w @ [c]"
  by (simp_all add: logged_def)

lemma redis_delete_fields [simp]:
  "store (redis_delete k w) = AList.delete k (store w)"
  "clock (redis_delete k w) = clock w"
  "rnd (redis_delete k w) = rnd w"
  "pos (redis_delete k w) = pos w"
  "log (redis_delete k w) = log w @ [DEL k]"
  by (simp_all add: redis_delete_def)

lemma live_cong: "store w' = store w \<Longrightarrow> clock w' = clock w \<Longrightarrow> live w' k = live w k"
  by (simp add: live_def split: option.splits)

lemma expiry_cong: "store w' = store w \<Longrightarrow> expiry w' k = expiry w k"
  by (simp add: expiry_def)

lemma live_logged [simp]: "live (logged c w) k = live w k"
  by (rule live_cong) simp_all

lemma expiry_logged [simp]: "expiry (logged c w) k = expiry w k"
  by (rule expiry_cong) simp_all

lemma live_pos_update [simp]: "live (w\<lparr>pos := n\<rparr>) k = live w k"
  by (rule live_cong) simp_all

lemma expiry_pos_update [simp]: "expiry (w\<lparr>pos := n\<rparr>) k = expiry w k"
  by (rule expiry_cong) simp_all

lemma live_put:
  "live (put k en c w) k' =
     (if k' = k then (if expired (clock w) (snd en) then None else Some (fst en)) else live w k')"
  by (cases en) (simp add: live_def AList.update_conv' split: option.splits)

lemma expiry_put: "expiry (put k en c w) k' = (if k' = k then snd en else expiry w k')"
  by (cases en) (simp add: expiry_def AList.update_conv')

lemma live_redis_delete [simp]:
  "live (redis_delete k w) k' = (if k' = k then None else live w k')"
  by (simp add: live_def AList.delete_conv' split: option.splits)

lemma expiry_redis_delete [simp]:
  "expiry (redis_delete k w) k' = (if k' = k then None else expiry w k')"
  by (simp add: expiry_def AList.delete_conv')

lemma live_expiry: "live w k = Some v \<Longrightarrow> \<not> expired (clock w) (expiry w k)"
  by (auto simp: live_def expiry_def split: option.splits if_splits)

text \<open>SET\<close>

lemma redis_set_fields [simp]:
  "clock (redis_set k v w) = clock w"
  "rnd (redis_set k v w) = rnd w"
  "pos (redis_set k v w) = pos w"
  "log (redis_set k v w) = log w @ [SET k v]"
  by (simp_all add: redis_set_def)

lemma live_redis_set [simp]:
  "live (redis_set k v w) k' = (if k' = k then Some (RString v) else live w k')"
  by (simp add: redis_set_def live_put expired_def)

lemma expiry_redis_set [simp]:
  "expiry (redis_set k v w) k' = (if k' = k then None else expiry w k')"
  by (simp add: redis_set_def expiry_put)

text \<open>EXPIREAT\<close>

lemma redis_expireat_fields [simp]:
  "clock (redis_expireat k t w) = clock w"
  "rnd (redis_expireat k t w) = rnd w"
  "pos (redis_expireat k t w) = pos w"
  "log (redis_expireat k t w) = log w @ [EXPIREAT k t]"
  by (simp_all add: redis_expireat_def split: option.splits)

lemma live_drop_key:
  "live (w\<lparr>store := AList.delete k (store w), log := l\<rparr>) k' =
     (if k' = k then None else live w k')"
  by (simp add: live_def AList.delete_conv' split: option.splits)

lemma expiry_drop_key:
  "expiry (w\<lparr>store := AList.delete k (store w), log := l\<rparr>) k' =
     (if k' = k then None else expiry w k')"
  by (simp add: expiry_def AList.delete_conv')

lemma live_redis_expireat [simp]:
  "live (redis_expireat k t w) k' = (if k' = k \<and> t \<le> clock w then None else live w k')"
proof (cases "live w k")
  case None
  then show ?thesis by (auto simp: redis_expireat_def)
next
  case (Some v)
  then show ?thesis
    by (auto simp: redis_expireat_def live_drop_key live_put expired_def)
qed

lemma expiry_redis_expireat:
  "expiry (redis_expireat k t w) k' =
     (if k' = k \<and> live w k \<noteq> None then (if t \<le> clock w then None else Some t)
      else expiry w k')"
proof (cases "live w k")
  case None
  then show ?thesis by (simp add: redis_expireat_def)
next
  case (Some v)
  then show ?thesis
    by (simp add: redis_expireat_def expiry_drop_key expiry_put)
qed

text \<open>SETNX\<close>

lemma redis_setnx_fst [simp]: "fst (redis_setnx k v w) = (live w k = None)"
  by (simp add: redis_setnx_def split: option.splits)

lemma redis_setnx_fields [simp]:
  "clock (snd (redis_setnx k v w)) = clock w"
  "rnd (snd (redis_setnx k v w)) = rnd w"
  "pos (snd (redis_setnx k v w)) = pos w"
  "log (snd (redis_setnx k v w)) = log w @ [SETNX k v]"
  by (simp_all add: redis_setnx_def split: option.splits)

lemma live_redis_setnx [simp]:
  "live (snd (redis_setnx k v w)) k' =
     (if k' = k \<and> live w k = None then Some (RString v) else live w k')"
  by (auto simp: redis_setnx_def live_put expired_def split: option.splits)

lemma expiry_redis_setnx:
  "expiry (snd (redis_setnx k v w)) k' =
     (if k' = k \<and> live w k = None then None else expiry w k')"
  by (auto simp: redis_setnx_def expiry_put split: option.splits)

lemma redis_setnx_occupied:
  "live w k \<noteq> None \<Longrightarrow> redis_setnx k v w = (False, logged (SETNX k v) w)"
  by (auto simp: redis_setnx_def split: option.splits)

text \<open>GET, LLEN, LRANGE, MGET: reads change the command log only\<close>

lemma redis_get_snd [simp]: "snd (redis_get k w) = logged (GET k) w"
  by (simp add: redis_get_def split: option.splits rval.splits)

lemma redis_get_fst:
  "fst (redis_get k w) =
     (case live w k of None \<Rightarrow> Inr None | Some (RString s) \<Rightarrow> Inr (Some s)
      | Some (RList xs) \<Rightarrow> Inl ResponseError)"
  by (simp add: redis_get_def split: option.splits rval.splits)

lemma redis_llen_snd [simp]: "snd (redis_llen k w) = logged (LLEN k) w"
  by (simp add: redis_llen_def split: option.splits rval.splits)

lemma redis_llen_fst:
  "fst (redis_llen k w) =
     (case live w k of None \<Rightarrow> Inr 0 | Some (RList xs) \<Rightarrow> Inr (length xs)
      | Some (RString s) \<Rightarrow> Inl ResponseError)"
  by (simp add: redis_llen_def split: option.splits rval.splits)

lemma redis_lrange_snd [simp]: "snd (redis_lrange k a b w) = logged (LRANGE k a b) w"
  by (simp add: redis_lrange_def split: option.splits rval.splits)

lemma redis_lrange_fst:
  "fst (redis_lrange k a b w) =
     (case live w k of None \<Rightarrow> Inr [] | Some (RList xs) \<Rightarrow> Inr (lrange_slice xs a b)
      | Some (RString s) \<Rightarrow> Inl ResponseError)"
  by (simp add: redis_lrange_def split: option.splits rval.splits)


lemma mget_one_cong: "live w' k = live w k \<Longrightarrow> mget_one w' k = mget_one w k"
  by (simp add: mget_one_def)

lemma mget_one_logged [simp]: "mget_one (logged c w) k = mget_one w k"
  by (simp add: mget_one_def)

text \<open>RPUSH\<close>

lemma redis_rpush_fields [simp]:
  "clock (snd (redis_rpush k x w)) = clock w"
  "rnd (snd (redis_rpush k x w)) = rnd w"
  "pos (snd (redis_rpush k x w)) = pos w"
  "log (snd (redis_rpush k x w)) = log w @ [RPUSH k x]"
  by (simp_all add: redis_rpush_def split: option.splits rval.splits)

lemma redis_rpush_fst:
  "fst (redis_rpush k x w) =
     (case live w k of None \<Rightarrow> Inr 1 | Some (RList xs) \<Rightarrow> Inr (length xs + 1)
      | Some (RString s) \<Rightarrow> Inl ResponseError)"
  by (simp add: redis_rpush_def split: option.splits rval.splits)

lemma live_redis_rpush:
  "live (snd (redis_rpush k x w)) k' =
     (if k' = k then
        (case live w k of None \<Rightarrow> Some (RList [x]) | Some (RList xs) \<Rightarrow> Some (RList (xs @ [x]))
         | Some (RString s) \<Rightarrow> Some (RString s))
      else live w k')"
  by (auto simp: redis_rpush_def live_put expired_def dest: live_expiry
      split: option.splits rval.splits)

lemma expiry_redis_rpush:
  "expiry (snd (redis_rpush k x w)) k' =
     (if k' = k \<and> live w k = None then None else expiry w k')"
  by (auto simp: redis_rpush_def expiry_put split: option.splits rval.splits)

text \<open>INCR\<close>

lemma redis_incr_fields [simp]:
  "clock (snd (redis_incr k w)) = clock w"
  "rnd (snd (redis_incr k w)) = rnd w"
  "pos (snd (redis_incr k w)) = pos w"
  "log (snd (redis_incr k w)) = log w @ [INCR k]"
  by (simp_all add: redis_incr_def split: option.splits rval.splits)

lemma live_redis_incr_other: "k' \<noteq> k \<Longrightarrow> live (snd (redis_incr k w)) k' = live w k'"
  by (auto simp: redis_incr_def live_put split: option.splits rval.splits)

lemma expiry_redis_incr_other: "k' \<noteq> k \<Longrightarrow> expiry (snd (redis_incr k w)) k' = expiry w k'"
  by (auto simp: redis_incr_def expiry_put split: option.splits rval.splits)

lemma redis_incr_Inr:
  "fst (redis_incr k w) = Inr n \<Longrightarrow>
     live (snd (redis_incr k w)) k = Some (RString (str_of_int n))
     \<and> (live w k = None \<and> n = 1 \<or> live w k = Some (RString (str_of_int (n - 1))))"
  by (auto simp: redis_incr_def live_put expired_def dest: live_expiry redis_int_of_str_SomeD
      split: option.splits rval.splits if_splits)

lemma redis_incr_Inl:
  "fst (redis_incr k w) = Inl e \<Longrightarrow> snd (redis_incr k w) = logged (INCR k) w"
  by (auto simp: redis_incr_def split: option.splits rval.splits if_splits)

subsection \<open>The key schema\<close>

lemma key_request_inj [simp]: "key_request self n i = key_request self n j \<longleftrightarrow> i = j"
  by (simp add: key_request_def)

lemma key_request_ne_list [simp]:
  "key_request self n i \<noteq> key_request_list self n"
  "key_request_list self n \<noteq> key_request self n i"
  by (simp_all add: key_request_def key_request_list_def)

lemma count_key_ne [simp]:
  "request_count_key self \<noteq> key_bin self n"
  "request_count_key self \<noteq> key_request_list self n"
  "request_count_key self \<noteq> key_request self n i"
  "key_bin self n \<noteq> request_count_key self"
  "key_request_list self n \<noteq> request_count_key self"
  "key_request self n i \<noteq> request_count_key self"
  by (simp_all add: request_count_key_def key_bin_def key_request_list_def key_request_def)

lemma details_ne_requests: "n @ '':details'' \<noteq> n' @ '':requests''"
proof
  assume "n @ '':details'' = n' @ '':requests''"
  then have "rev (n @ '':details'') = rev (n' @ '':requests'')" by simp
  then show False by simp
qed

lemma key_bin_ne_list [simp]:
  "key_bin self n \<noteq> key_request_list self n'"
  "key_request_list self n' \<noteq> key_bin self n"
  using details_ne_requests [of n n'] by (auto simp: key_bin_def key_request_list_def)

subsection \<open>The random source and the constructors\<close>

lemma tinyid_eq: "tinyid n w = (rnd w (pos w), w\<lparr>pos := Suc (pos w)\<rparr>)"
  by (simp add: tinyid_def)

lemma Request_init_eq:
  "Request_init input w = (\<lparr>req_id = rnd w (pos w), payload = input\<rparr>, w\<lparr>pos := Suc (pos w)\<rparr>)"
  by (simp add: Request_init_def tinyid_def)

lemma Bin_init_eq:
  "Bin_init p w =
     (\<lparr>name = rnd w (pos w), created = clock w, private_flag = p, requests = []\<rparr>,
      w\<lparr>pos := Suc (pos w)\<rparr>)"
  by (simp add: Bin_init_def tinyid_def)

subsection \<open>The retry loop\<close>

lemma setnx_loop_free:
  "live w key = None \<Longrightarrow>
     setnx_loop (Suc n) M key r w = (True, r, snd (redis_setnx key (Request_dump M r) w))"
  by (simp add: redis_setnx_def)

lemma setnx_loop_occupied:
  "live w key \<noteq> None \<Longrightarrow>
     \<exists>r' cs. setnx_loop n M key r w = (False, r', w\<lparr>pos := pos w + n, log := log w @ cs\<rparr>)
       \<and> length cs = n \<and> (\<forall>c \<in> set cs. \<exists>v. c = SETNX key v)"
proof (induction n arbitrary: r w)
  case 0
  show ?case by simp
next
  case (Suc n)
  let ?w = "(logged (SETNX key (Request_dump M r)) w)\<lparr>pos := Suc (pos w)\<rparr>"
  let ?r = "r\<lparr>req_id := rnd w (pos w)\<rparr>"
  from Suc.prems have step: "setnx_loop (Suc n) M key r w = setnx_loop n M key ?r ?w"
    by (simp add: redis_setnx_occupied tinyid_def)
  from Suc.prems have "live ?w key \<noteq> None" by simp
  from Suc.IH [OF this, of ?r] obtain r' cs where
    loop: "setnx_loop n M key ?r ?w = (False, r', ?w\<lparr>pos := pos ?w + n, log := log ?w @ cs\<rparr>)"
    and len: "length cs = n" and all: "\<forall>c \<in> set cs. \<exists>v. c = SETNX key v"
    by blast
  have "?w\<lparr>pos := pos ?w + n, log := log ?w @ cs\<rparr>
          = w\<lparr>pos := pos w + Suc n, log := log w @ (SETNX key (Request_dump M r) # cs)\<rparr>"
    by (simp add: logged_def)
  with step loop len all show ?case
    by (intro exI [of _ r'] exI [of _ "SETNX key (Request_dump M r) # cs"]) simp
qed

subsection \<open>create_request, with the loop resolved\<close>

lemma case_result_pair:
  "(case p of (Inl e, w) \<Rightarrow> f e w | (Inr x, w) \<Rightarrow> g x w) =
     (case fst p of Inl e \<Rightarrow> f e (snd p) | Inr x \<Rightarrow> g x (snd p))"
  by (cases p; cases "fst p") auto

lemma create_request_free:
  assumes "live w (key_request self (name b) (rnd w (pos w))) = None"
  shows "create_request M self b input w =
     (case fst (redis_rpush (key_request_list self (name b)) (rnd w (pos w))
                 (after_write M self b input w)) of
        Inl e \<Rightarrow> (Inl e, snd (redis_rpush (key_request_list self (name b)) (rnd w (pos w))
                                 (after_write M self b input w)))
      | Inr _ \<Rightarrow>
          (case fst (redis_incr (request_count_key self) (after_append M self b input w)) of
             Inl e \<Rightarrow> (Inl e, snd (redis_incr (request_count_key self) (after_append M self b input w)))
           | Inr _ \<Rightarrow> (Inr (), snd (redis_incr (request_count_key self) (after_append M self b input w)))))"
proof -
  have fifty: "(50::nat) = Suc 49" by simp
  from assms have "live (w\<lparr>pos := Suc (pos w)\<rparr>) (key_request self (name b) (rnd w (pos w))) = None"
    by simp
  then have loop: "setnx_loop 50 M (key_request self (name b) (rnd w (pos w)))
        \<lparr>req_id = rnd w (pos w), payload = input\<rparr> (w\<lparr>pos := Suc (pos w)\<rparr>)
      = (True, \<lparr>req_id = rnd w (pos w), payload = input\<rparr>,
         snd (redis_setnx (key_request self (name b) (rnd w (pos w)))
               (Request_dump M \<lparr>req_id = rnd w (pos w), payload = input\<rparr>)
               (w\<lparr>pos := Suc (pos w)\<rparr>)))"
    unfolding fifty by (rule setnx_loop_free)
  show ?thesis
    unfolding create_request_def Request_init_eq
    by (simp add: loop case_result_pair Let_def py_int_def after_write_def after_append_def
        del: setnx_loop.simps split: sum.splits)
qed

lemma create_request_occupied:
  assumes "live w (key_request self (name b) (rnd w (pos w))) \<noteq> None"
  shows "\<exists>cs. create_request M self b input w
            = (Inl RuntimeError, w\<lparr>pos := pos w + 51, log := log w @ cs\<rparr>)
          \<and> length cs = 50
          \<and> (\<forall>c \<in> set cs. \<exists>v. c = SETNX (key_request self (name b) (rnd w (pos w))) v)"
proof -
  let ?k = "key_request self (name b) (rnd w (pos w))"
  let ?w = "w\<lparr>pos := Suc (pos w)\<rparr>"
  from assms have "live ?w ?k \<noteq> None" by simp
  from setnx_loop_occupied [OF this, of 50 M "\<lparr>req_id = rnd w (pos w), payload = input\<rparr>"]
  obtain r' cs where
    loop: "setnx_loop 50 M ?k \<lparr>req_id = rnd w (pos w), payload = input\<rparr> ?w
             = (False, r', ?w\<lparr>pos := pos ?w + 50, log := log ?w @ cs\<rparr>)"
    and cs: "length cs = 50" "\<forall>c \<in> set cs. \<exists>v. c = SETNX ?k v"
    by blast
  have "create_request M self b input w = (Inl RuntimeError, w\<lparr>pos := pos w + 51, log := log w @ cs\<rparr>)"
    unfolding create_request_def Request_init_eq
    by (simp add: loop del: setnx_loop.simps)
  with cs show ?thesis by blast
qed

lemma issued_append [simp]: "log w' = log w @ cs \<Longrightarrow> issued w w' = cs"
  by (simp add: issued_def)

lemma log_after_write:
  "log (after_write M self b input w) =
     log w @ [SETNX (key_request self (name b) (rnd w (pos w)))
                (Request_dump M \<lparr>req_id = rnd w (pos w), payload = input\<rparr>),
              EXPIREAT (key_request self (name b) (rnd w (pos w))) (created b + bin_ttl self + 2)]"
  by (simp add: after_write_def)

lemma log_after_append:
  "log (after_append M self b input w) =
     log (after_write M self b input w)
       @ [RPUSH (key_request_list self (name b)) (rnd w (pos w)),
          EXPIREAT (key_request_list self (name b)) (created b + bin_ttl self + 1),
          SETNX (request_count_key self) (str_of_int 0)]"
  by (simp add: after_append_def)

lemma create_request_Inr_free:
  assumes "create_request M self b input w = (Inr u, w')"
  shows "live w (key_request self (name b) (rnd w (pos w))) = None"
proof (rule ccontr)
  assume "live w (key_request self (name b) (rnd w (pos w))) \<noteq> None"
  from create_request_occupied [OF this, of M input] assms show False by auto
qed

lemma create_request_Inr_world:
  assumes "create_request M self b input w = (Inr u, w')"
  shows "w' = snd (redis_incr (request_count_key self) (after_append M self b input w))"
    and "\<exists>n. fst (redis_rpush (key_request_list self (name b)) (rnd w (pos w))
                 (after_write M self b input w)) = Inr n"
    and "\<exists>n. fst (redis_incr (request_count_key self) (after_append M self b input w)) = Inr n"
  using assms create_request_free [OF create_request_Inr_free [OF assms], of M input]
  by (auto split: sum.splits)

lemma create_request_Inr_log:
  assumes "create_request M self b input w = (Inr u, w')"
  shows "log w' = log w @
     [SETNX (key_request self (name b) (rnd w (pos w)))
        (Request_dump M \<lparr>req_id = rnd w (pos w), payload = input\<rparr>),
      EXPIREAT (key_request self (name b) (rnd w (pos w))) (created b + bin_ttl self + 2),
      RPUSH (key_request_list self (name b)) (rnd w (pos w)),
      EXPIREAT (key_request_list self (name b)) (created b + bin_ttl self + 1),
      SETNX (request_count_key self) (str_of_int 0),
      INCR (request_count_key self)]"
  by (simp add: create_request_Inr_world(1) [OF assms] log_after_append log_after_write)

lemma create_bin_eq:
  "create_bin M self p w =
     (\<lparr>name = rnd w (pos w), created = clock w, private_flag = p, requests = []\<rparr>,
      redis_expireat (key_bin self (rnd w (pos w))) (clock w + bin_ttl self)
        (redis_set (key_bin self (rnd w (pos w)))
           (Bin_dump M \<lparr>name = rnd w (pos w), created = clock w, private_flag = p, requests = []\<rparr>)
           (w\<lparr>pos := Suc (pos w)\<rparr>)))"
  by (simp add: create_bin_def Bin_init_eq Let_def py_int_def)

subsection \<open>What a successful create_request leaves behind\<close>

lemma after_write_fields [simp]:
  "clock (after_write M self b input w) = clock w"
  "rnd (after_write M self b input w) = rnd w"
  "pos (after_write M self b input w) = Suc (pos w)"
  by (simp_all add: after_write_def)

lemma after_append_fields [simp]:
  "clock (after_append M self b input w) = clock w"
  "rnd (after_append M self b input w) = rnd w"
  "pos (after_append M self b input w) = Suc (pos w)"
  by (simp_all add: after_append_def)

lemma live_after_write:
  "live (after_write M self b input w) k =
     (if k = key_request self (name b) (rnd w (pos w)) then
        (if created b + bin_ttl self + 2 \<le> clock w then None
         else if live w k = None
           then Some (RString (Request_dump M \<lparr>req_id = rnd w (pos w), payload = input\<rparr>))
           else live w k)
      else live w k)"
  by (simp add: after_write_def)

lemma live_after_append:
  "live (after_append M self b input w) k =
     (if k = request_count_key self then
        (if live w k = None then Some (RString (str_of_int 0)) else live w k)
      else if k = key_request_list self (name b) then
        (if created b + bin_ttl self + 1 \<le> clock w then None
         else (case live w k of
                 None \<Rightarrow> Some (RList [rnd w (pos w)])
               | Some (RList xs) \<Rightarrow> Some (RList (xs @ [rnd w (pos w)]))
               | Some (RString s) \<Rightarrow> Some (RString s)))
      else live (after_write M self b input w) k)"
  by (simp add: after_append_def live_redis_rpush live_after_write)

lemma str_of_int_inj:
  assumes "str_of_int i = str_of_int j"
  shows "i = j"
proof -
  have "Some i = py_int_of_str (str_of_int i)" by (simp only: py_int_of_str_of_int)
  also have "\<dots> = py_int_of_str (str_of_int j)" by (simp only: assms)
  also have "\<dots> = Some j" by (simp only: py_int_of_str_of_int)
  finally show ?thesis by simp
qed

lemma create_request_Inr_fields:
  assumes "create_request M self b input w = (Inr u, w')"
  shows "clock w' = clock w" "rnd w' = rnd w" "pos w' = Suc (pos w)"
  by (simp_all add: create_request_Inr_world(1) [OF assms])

lemma create_request_Inr_index_before:
  assumes "create_request M self b input w = (Inr u, w')"
  shows "live w (key_request_list self (name b)) = None
       \<or> (\<exists>xs. live w (key_request_list self (name b)) = Some (RList xs))"
proof -
  from create_request_Inr_world(2) [OF assms] obtain n where
    "fst (redis_rpush (key_request_list self (name b)) (rnd w (pos w))
           (after_write M self b input w)) = Inr n" ..
  then show ?thesis
    by (auto simp: redis_rpush_fst live_after_write split: option.splits rval.splits)
qed

lemma create_request_Inr_live_other:
  assumes "create_request M self b input w = (Inr u, w')"
    and "k \<noteq> key_request self (name b) (rnd w (pos w))"
    and "k \<noteq> key_request_list self (name b)"
    and "k \<noteq> request_count_key self"
  shows "live w' k = live w k"
  using assms(2-4)
  by (simp add: create_request_Inr_world(1) [OF assms(1)] live_redis_incr_other
      live_after_append live_after_write)

lemma create_request_Inr_live_request:
  assumes "create_request M self b input w = (Inr u, w')"
  shows "live w' (key_request self (name b) (rnd w (pos w))) =
     (if created b + bin_ttl self + 2 \<le> clock w then None
      else Some (RString (Request_dump M \<lparr>req_id = rnd w (pos w), payload = input\<rparr>)))"
  using create_request_Inr_free [OF assms]
  by (simp add: create_request_Inr_world(1) [OF assms] live_redis_incr_other
      live_after_append live_after_write)

lemma create_request_Inr_live_index:
  assumes "create_request M self b input w = (Inr u, w')"
  shows "live w' (key_request_list self (name b)) =
     (if created b + bin_ttl self + 1 \<le> clock w then None
      else Some (RList ((case live w (key_request_list self (name b)) of
                          Some (RList xs) \<Rightarrow> xs | _ \<Rightarrow> []) @ [rnd w (pos w)])))"
  using create_request_Inr_index_before [OF assms]
  by (auto simp: create_request_Inr_world(1) [OF assms] live_redis_incr_other
      live_after_append)

subsection \<open>The counter\<close>

lemma count_requests_snd [simp]:
  "snd (count_requests self w) = logged (GET (request_count_key self)) w"
proof -
  have "snd (redis_get (request_count_key self) w) = logged (GET (request_count_key self)) w"
    by simp
  then show ?thesis
    by (cases "redis_get (request_count_key self) w")
       (auto simp: count_requests_def split: sum.splits option.splits)
qed

lemma count_requests_fst:
  "fst (count_requests self w) =
     (case live w (request_count_key self) of
        None \<Rightarrow> Inr 0
      | Some (RList xs) \<Rightarrow> Inl ResponseError
      | Some (RString s) \<Rightarrow>
          if s = [] then Inr 0
          else (case py_int_of_str s of None \<Rightarrow> Inl ValueError | Some i \<Rightarrow> Inr i))"
  by (auto simp: count_requests_def redis_get_def split: option.splits rval.splits)

lemma count_requests_str_of_int:
  "live w (request_count_key self) = Some (RString (str_of_int n)) \<Longrightarrow>
     fst (count_requests self w) = Inr n"
  by (simp add: count_requests_fst str_of_int_nonempty py_int_of_str_of_int)

lemma create_request_Inr_count:
  assumes "create_request M self b input w = (Inr u, w')"
  shows "\<exists>c. fst (count_requests self w) = Inr c \<and> fst (count_requests self w') = Inr (c + 1)"
proof -
  let ?ck = "request_count_key self"
  let ?a = "after_append M self b input w"
  from create_request_Inr_world(3) [OF assms] obtain n where
    n: "fst (redis_incr ?ck ?a) = Inr n" ..
  have w': "w' = snd (redis_incr ?ck ?a)" by (rule create_request_Inr_world(1) [OF assms])
  from redis_incr_Inr [OF n] w' have after: "live w' ?ck = Some (RString (str_of_int n))"
    and before: "live ?a ?ck = None \<and> n = 1 \<or> live ?a ?ck = Some (RString (str_of_int (n - 1)))"
    by simp_all
  have a: "live ?a ?ck = (if live w ?ck = None then Some (RString (str_of_int 0)) else live w ?ck)"
    by (simp add: live_after_append)
  have "fst (count_requests self w) = Inr (n - 1)"
  proof (cases "live w ?ck")
    case None
    with a before have "str_of_int 0 = str_of_int (n - 1)" by simp
    then have "n - 1 = 0" by (auto dest: str_of_int_inj)
    with None show ?thesis by (simp add: count_requests_fst)
  next
    case (Some v)
    with a before have "live w ?ck = Some (RString (str_of_int (n - 1)))" by simp
    then show ?thesis by (rule count_requests_str_of_int)
  qed
  moreover from after have "fst (count_requests self w') = Inr n"
    by (rule count_requests_str_of_int)
  ultimately show ?thesis by simp
qed

subsection \<open>When create_request succeeds\<close>

lemma redis_int_of_str_zero: "redis_int_of_str (str_of_int 0) = Some 0"
  by (rule redis_int_of_str_of_int) simp_all

lemma create_request_succeeds:
  assumes free: "live w (key_request self (name b) (rnd w (pos w))) = None"
    and idx: "index_ready self (name b) w"
    and cnt: "counter_ready self w"
  shows "fst (create_request M self b input w) = Inr ()"
proof -
  let ?kl = "key_request_list self (name b)"
  let ?ck = "request_count_key self"
  let ?a = "after_append M self b input w"
  from idx obtain n where push:
    "fst (redis_rpush ?kl (rnd w (pos w)) (after_write M self b input w)) = Inr n"
    by (auto simp: index_ready_def redis_rpush_fst live_after_write
        split: option.splits rval.splits)
  have "\<exists>m. fst (redis_incr ?ck ?a) = Inr m"
  proof (cases "live w ?ck")
    case None
    then have "live ?a ?ck = Some (RString (str_of_int 0))" by (simp add: live_after_append)
    then show ?thesis by (simp add: redis_incr_def redis_int_of_str_zero)
  next
    case (Some v)
    with cnt obtain s k where s: "live w ?ck = Some (RString s)"
      and k: "redis_int_of_str s = Some k" "k + 1 < 2 ^ 63"
      by (auto simp: counter_ready_def split: rval.splits option.splits)
    from s have "live ?a ?ck = Some (RString s)" by (simp add: live_after_append)
    with k show ?thesis by (simp add: redis_incr_def)
  qed
  then obtain m where "fst (redis_incr ?ck ?a) = Inr m" ..
  with push show ?thesis by (simp add: create_request_free [OF free])
qed

lemma create_request_pair:
  "fst (create_request M self b input w) = Inr () \<Longrightarrow>
     create_request M self b input w = (Inr (), snd (create_request M self b input w))"
  by (metis prod.collapse)

subsection \<open>The example world\<close>

lemma ex_world_fields [simp]:
  "clock ex_world = 1700000000" "pos ex_world = 0" "rnd ex_world = ex_rnd" "log ex_world = []"
  "live ex_world k = None"
  by (simp_all add: ex_world_def live_def)

lemma ex_storage_keys [simp]:
  "key_bin ex_storage nm = ''requestbin:bins:'' @ nm @ '':details''"
  "key_request_list ex_storage nm = ''requestbin:bins:'' @ nm @ '':requests''"
  "key_request ex_storage nm i = ''requestbin:bins:'' @ nm @ '':requests:'' @ i"
  "request_count_key ex_storage = ''requestbin:requests''"
  "bin_ttl ex_storage = 172800"
  by (simp_all add: ex_storage_def key_bin_def key_request_list_def key_request_def
      request_count_key_def)

lemma ex_create_bin: "create_bin ex_models ex_storage False ex_world = (ex_bin, ex_world_bin)"
  by (simp add: ex_world_bin_def create_bin_eq ex_bin_def)

lemma ex_world_bin_fields [simp]:
  "clock ex_world_bin = 1700000000" "pos ex_world_bin = Suc 0" "rnd ex_world_bin = ex_rnd"
  by (simp_all add: ex_world_bin_def create_bin_eq)

lemma ex_bin_fields [simp]:
  "name ex_bin = ''vxkq2mzp''" "created ex_bin = 1700000000" "requests ex_bin = []"
  "private_flag ex_bin = False"
  by (simp_all add: ex_bin_def)

lemma live_ex_world_bin:
  "live ex_world_bin k =
     (if k = ''requestbin:bins:vxkq2mzp:details''
      then Some (RString (Bin_dump ex_models ex_bin)) else None)"
  by (simp add: ex_world_bin_def create_bin_eq ex_bin_def)

lemma ex_first_request:
  "fst (create_request ex_models ex_storage ex_bin ''hello'' ex_world_bin) = Inr ()"
  by (rule create_request_succeeds)
     (simp_all add: live_ex_world_bin index_ready_def counter_ready_def)

text \<open>
  Claim C2. If the key of the request's first id is occupied, every conditional write
  fails (a failed \<^verbatim>\<open>SETNX\<close> changes nothing and the key is the same at every
  attempt): \<open>create_request\<close> raises its \<^verbatim>\<open>RuntimeError\<close> after exactly 50
  \<^verbatim>\<open>SETNX\<close> commands and no other command, so neither the index append nor the
  counter increment happens, and the key space is unchanged. An attempt that succeeds
  ends the loop at once, whatever budget is left: one \<^verbatim>\<open>SETNX\<close> is issued.
\<close>

theorem create_request_retry_budget:
  assumes "live w (key_request self (name b) (rnd w (pos w))) \<noteq> None"
  shows "fst (create_request M self b input w) = Inl RuntimeError
       \<and> length (issued w (snd (create_request M self b input w))) = 50
       \<and> (\<forall>c \<in> set (issued w (snd (create_request M self b input w))).
             \<exists>v. c = SETNX (key_request self (name b) (rnd w (pos w))) v)
       \<and> store (snd (create_request M self b input w)) = store w
       \<and> (\<forall>n r w'. live w' (key_request self (name b) (rnd w (pos w))) = None \<longrightarrow>
             fst (setnx_loop (Suc n) M (key_request self (name b) (rnd w (pos w))) r w')
             \<and> issued w' (snd (snd (setnx_loop (Suc n) M
                   (key_request self (name b) (rnd w (pos w))) r w')))
                 = [SETNX (key_request self (name b) (rnd w (pos w))) (Request_dump M r)])"
proof -
  from create_request_occupied [OF assms, of M input] obtain cs where
    res: "create_request M self b input w
            = (Inl RuntimeError, w\<lparr>pos := pos w + 51, log := log w @ cs\<rparr>)"
    and cs: "length cs = 50"
      "\<forall>c \<in> set cs. \<exists>v. c = SETNX (key_request self (name b) (rnd w (pos w))) v"
    by blast
  have "issued w (w\<lparr>pos := pos w + 51, log := log w @ cs\<rparr>) = cs" by simp
  with res cs have first: "fst (create_request M self b input w) = Inl RuntimeError
       \<and> length (issued w (snd (create_request M self b input w))) = 50
       \<and> (\<forall>c \<in> set (issued w (snd (create_request M self b input w))).
             \<exists>v. c = SETNX (key_request self (name b) (rnd w (pos w))) v)
       \<and> store (snd (create_request M self b input w)) = store w"
    by simp
  have "fst (setnx_loop (Suc n) M k r w')
      \<and> issued w' (snd (snd (setnx_loop (Suc n) M k r w'))) = [SETNX k (Request_dump M r)]"
    if "live w' k = None" for n r w' k
    by (simp add: setnx_loop_free [OF that] del: setnx_loop.simps)
  with first show ?thesis by blast
qed

lemma live_ex_world_taken:
  "live ex_world_taken ''requestbin:bins:vxkq2mzp:requests:a1b2c3'' = Some (RString ''a1b2c3|hello'')"
  by (simp add: ex_world_taken_def live_def expired_def)

theorem create_request_retry_budget_witness:
  "live ex_world_taken
     (key_request ex_storage (name ex_bin) (rnd ex_world_taken (pos ex_world_taken))) \<noteq> None
   \<and> fst (create_request ex_models ex_storage ex_bin ''hello'' ex_world_taken) = Inl RuntimeError
   \<and> length (issued ex_world_taken
        (snd (create_request ex_models ex_storage ex_bin ''hello'' ex_world_taken))) = 50
   \<and> store (snd (create_request ex_models ex_storage ex_bin ''hello'' ex_world_taken))
       = store ex_world_taken
   \<and> live ex_world ''requestbin:bins:vxkq2mzp:requests:a1b2c3'' = None
   \<and> issued ex_world (snd (snd (setnx_loop (Suc 49) ex_models
        ''requestbin:bins:vxkq2mzp:requests:a1b2c3''
        \<lparr>req_id = ''a1b2c3'', payload = ''hello''\<rparr> ex_world)))
       = [SETNX ''requestbin:bins:vxkq2mzp:requests:a1b2c3''
            (Request_dump ex_models \<lparr>req_id = ''a1b2c3'', payload = ''hello''\<rparr>)]"
proof -
  have kreq: "key_request ex_storage (name ex_bin) (rnd ex_world_taken (pos ex_world_taken))
      = ''requestbin:bins:vxkq2mzp:requests:a1b2c3''"
    by (simp add: ex_world_taken_def)
  have taken: "live ex_world_taken
     (key_request ex_storage (name ex_bin) (rnd ex_world_taken (pos ex_world_taken))) \<noteq> None"
    unfolding kreq by (simp add: live_ex_world_taken)
  note budget = create_request_retry_budget [OF taken, of ex_models "''hello''", unfolded kreq]
  from budget have stop: "live ex_world ''requestbin:bins:vxkq2mzp:requests:a1b2c3'' = None \<longrightarrow>
      issued ex_world (snd (snd (setnx_loop (Suc 49) ex_models
        ''requestbin:bins:vxkq2mzp:requests:a1b2c3''
        \<lparr>req_id = ''a1b2c3'', payload = ''hello''\<rparr> ex_world)))
       = [SETNX ''requestbin:bins:vxkq2mzp:requests:a1b2c3''
            (Request_dump ex_models \<lparr>req_id = ''a1b2c3'', payload = ''hello''\<rparr>)]"
    by blast
  have free: "live ex_world ''requestbin:bins:vxkq2mzp:requests:a1b2c3'' = None" by simp
  from budget taken stop free show ?thesis by blast
qed

subsection \<open>The example serialisation round-trips\<close>

lemma split_field [simp]:
  assumes "field_sep \<notin> set xs"
  shows "field_head (xs @ field_sep # ys) = xs"
    and "field_tail (xs @ field_sep # ys) = ys"
  using assms by (induction xs) (auto simp: field_head_def field_tail_def)

lemma digits_no_sep: "list_all is_digit s \<Longrightarrow> field_sep \<notin> set s"
  by (induction s) (auto simp: is_digit_def field_sep_def)

lemma str_of_int_no_sep [simp]: "field_sep \<notin> set (str_of_int i)"
  using digits_no_sep [OF str_of_nat_digits]
  by (auto simp: str_of_int_def field_sep_def)


lemma ex_Bin_roundtrip:
  assumes "field_sep \<notin> set (name b)" and "requests b = []"
  shows "Bin_load ex_models (Some (Bin_dump ex_models b)) = Inr b"
  using assms by (cases "private_flag b") (simp_all add: ex_models_def py_int_of_str_of_int)

lemma ex_loads_None [simp]:
  "Bin_load ex_models None = Inl TypeError" "Request_load ex_models None = Inl TypeError"
  by (simp_all add: ex_models_def)


lemma ex_bin_roundtrip: "Bin_load ex_models (Some (Bin_dump ex_models ex_bin)) = Inr ex_bin"
  by (rule ex_Bin_roundtrip) (simp_all add: field_sep_def)

subsection \<open>Python's map\<close>


lemma py_map_Inr_all: "py_map f xs = Inr ys \<Longrightarrow> \<forall>x \<in> set xs. \<exists>y. f x = Inr y"
  by (induction xs arbitrary: ys) (auto split: sum.splits)

lemma py_map_all_Inr: "\<forall>x \<in> set xs. f x = Inr (g x) \<Longrightarrow> py_map f xs = Inr (map g xs)"
  by (induction xs) auto


subsection \<open>lookup_bin\<close>


lemma lookup_try_empty:
  assumes "Bin_load M d = Inr b" and "live w (key_request_list self nm) = None"
  shows "lookup_try M self nm d w = (Inr b, logged (LLEN (key_request_list self nm)) w)"
  using assms by (simp add: lookup_try_def redis_llen_def)

lemma after_reads_fields [simp]:
  "live (after_reads self nm ids w) k = live w k"
  "clock (after_reads self nm ids w) = clock w"
  "log (after_reads self nm ids w) =
     log w @ [LLEN (key_request_list self nm),
              LRANGE (key_request_list self nm) 0 (int (length ids) - 1),
              MGET (map (key_request self nm) ids)]"
  by (simp_all add: after_reads_def)


lemma lookup_bin_eq:
  assumes "fst (redis_get (key_bin self nm) w) = Inr d"
  shows "lookup_bin M self nm w =
     (case fst (lookup_try M self nm d (logged (GET (key_bin self nm)) w)) of
        Inl e \<Rightarrow>
          if e = TypeError
          then (Inl KeyError, redis_delete (key_bin self nm)
                  (snd (lookup_try M self nm d (logged (GET (key_bin self nm)) w))))
          else (Inl e, snd (lookup_try M self nm d (logged (GET (key_bin self nm)) w)))
      | Inr b \<Rightarrow> (Inr b, snd (lookup_try M self nm d (logged (GET (key_bin self nm)) w))))"
proof -
  have "redis_get (key_bin self nm) w = (Inr d, logged (GET (key_bin self nm)) w)"
    using assms redis_get_snd [of "key_bin self nm" w] by (metis prod.collapse)
  then show ?thesis
    by (simp add: lookup_bin_def Let_def case_result_pair split: sum.splits)
qed










subsection \<open>Corrupt and absent details\<close>




subsection \<open>Missing request records\<close>




subsection \<open>A fresh bin is readable\<close>

text \<open>
  Claim C8. Let the retention window be positive, let \<open>create_bin\<close> return \<open>b\<close>, let
  the serialised \<open>b\<close> deserialise to \<open>b\<close>, and let the name be fresh, so that no index
  list is live under it. Then \<open>lookup_bin\<close> on the name of \<open>b\<close>, right after, returns
  \<open>b\<close>: the same name, creation time and visibility flag, and no requests.
\<close>

theorem create_bin_then_lookup_bin:
  assumes "0 < bin_ttl self"
    and "create_bin M self p w = (b, w1)"
    and "Bin_load M (Some (Bin_dump M b)) = Inr b"
    and "live w (key_request_list self (name b)) = None"
  shows "fst (lookup_bin M self (name b) w1) = Inr b
       \<and> requests b = [] \<and> private_flag b = p \<and> created b = clock w"
proof -
  from assms(2) have b: "b = \<lparr>name = rnd w (pos w), created = clock w, private_flag = p, requests = []\<rparr>"
    and w1: "w1 = redis_expireat (key_bin self (name b)) (clock w + bin_ttl self)
                    (redis_set (key_bin self (name b)) (Bin_dump M b) (w\<lparr>pos := Suc (pos w)\<rparr>))"
    by (auto simp: create_bin_eq)
  from assms(1) have kb: "live w1 (key_bin self (name b)) = Some (RString (Bin_dump M b))"
    by (simp add: w1)
  then have g: "fst (redis_get (key_bin self (name b)) w1) = Inr (Some (Bin_dump M b))"
    by (simp add: redis_get_fst)
  from assms(4) have "live (logged (GET (key_bin self (name b))) w1) (key_request_list self (name b)) = None"
    by (simp add: w1)
  from lookup_try_empty [OF assms(3) this]
  have "fst (lookup_bin M self (name b) w1) = Inr b"
    by (simp add: lookup_bin_eq [OF g])
  moreover from b have "requests b = []" "private_flag b = p" "created b = clock w"
    by simp_all
  ultimately show ?thesis by simp
qed

theorem create_bin_then_lookup_bin_witness:
  "0 < bin_ttl ex_storage
   \<and> create_bin ex_models ex_storage False ex_world = (ex_bin, ex_world_bin)
   \<and> Bin_load ex_models (Some (Bin_dump ex_models ex_bin)) = Inr ex_bin
   \<and> live ex_world (key_request_list ex_storage (name ex_bin)) = None
   \<and> fst (lookup_bin ex_models ex_storage (name ex_bin) ex_world_bin) = Inr ex_bin
   \<and> requests ex_bin = []"
proof -
  have t: "0 < bin_ttl ex_storage" by simp
  have f: "live ex_world (key_request_list ex_storage (name ex_bin)) = None" by simp
  from create_bin_then_lookup_bin [OF t ex_create_bin ex_bin_roundtrip f] t ex_create_bin
    ex_bin_roundtrip f
  show ?thesis by simp
qed

subsection \<open>Expirations in the key space\<close>

lemma key_bin_ne_request [simp]:
  "key_bin self n \<noteq> key_request self n i"
  "key_request self n i \<noteq> key_bin self n"
  by (simp_all add: key_bin_def key_request_def)

lemma at_time_fields [simp]:
  "store (at_time t w) = store w" "clock (at_time t w) = t" "log (at_time t w) = log w"
  "expiry (at_time t w) k = expiry w k"
  by (simp_all add: at_time_def expiry_def)

lemma live_at_time_deadline:
  "expiry w k = Some e \<Longrightarrow> (live (at_time t w) k \<noteq> None) = (t < e)"
  by (auto simp: live_def expiry_def expired_def split: option.splits)

lemma live_at_time_gone:
  "live w k = None \<Longrightarrow> expiry w k = None \<Longrightarrow> live (at_time t w) k = None"
  by (auto simp: live_def expiry_def expired_def split: option.splits if_splits)

lemma expiry_after_write:
  "expiry (after_write M self b input w) k =
     (if k = key_request self (name b) (rnd w (pos w))
      then (if created b + bin_ttl self + 2 \<le> clock w then None
            else Some (created b + bin_ttl self + 2))
      else expiry w k)"
  by (auto simp: after_write_def expiry_redis_expireat expiry_redis_setnx)

lemma expiry_after_append:
  "expiry (after_append M self b input w) k =
     (if k = request_count_key self then
        (if live w k = None then None else expiry w k)
      else if k = key_request_list self (name b) then
        (if created b + bin_ttl self + 1 \<le> clock w then None
         else Some (created b + bin_ttl self + 1))
      else expiry (after_write M self b input w) k)"
  by (auto simp: after_append_def expiry_redis_setnx expiry_redis_expireat expiry_redis_rpush
      live_redis_rpush live_after_write expiry_after_write split: option.splits rval.splits)

lemma create_request_Inr_expiry_request:
  assumes "create_request M self b input w = (Inr u, w')"
  shows "expiry w' (key_request self (name b) (rnd w (pos w))) =
     (if created b + bin_ttl self + 2 \<le> clock w then None
      else Some (created b + bin_ttl self + 2))"
  by (simp add: create_request_Inr_world(1) [OF assms] expiry_redis_incr_other
      expiry_after_append expiry_after_write)

lemma create_request_Inr_expiry_index:
  assumes "create_request M self b input w = (Inr u, w')"
  shows "expiry w' (key_request_list self (name b)) =
     (if created b + bin_ttl self + 1 \<le> clock w then None
      else Some (created b + bin_ttl self + 1))"
  by (simp add: create_request_Inr_world(1) [OF assms] expiry_redis_incr_other
      expiry_after_append)

lemma create_request_Inr_expiry_other:
  assumes "create_request M self b input w = (Inr u, w')"
    and "k \<noteq> key_request self (name b) (rnd w (pos w))"
    and "k \<noteq> key_request_list self (name b)"
    and "k \<noteq> request_count_key self"
  shows "expiry w' k = expiry w k"
  using assms(2-4)
  by (simp add: create_request_Inr_world(1) [OF assms(1)] expiry_redis_incr_other
      expiry_after_append expiry_after_write)

lemma create_bin_live:
  assumes "create_bin M self p w = (b, w1)"
  shows "live w1 (key_bin self (name b)) =
     (if bin_ttl self \<le> 0 then None else Some (RString (Bin_dump M b)))"
    and "expiry w1 (key_bin self (name b)) =
     (if bin_ttl self \<le> 0 then None else Some (created b + bin_ttl self))"
    and "log w1 = log w @ [SET (key_bin self (name b)) (Bin_dump M b),
                          EXPIREAT (key_bin self (name b)) (created b + bin_ttl self)]"
  using assms by (auto simp: create_bin_eq expiry_redis_expireat)

text \<open>
  Claim C3. Let \<open>create_bin\<close> return \<open>b0\<close> and let a \<open>create_request\<close> against any
  bin \<open>b\<close> succeed, having drawn the id \<open>i\<close>.

  \<^item> \<open>create_bin\<close> issues one expiration, on the details key of \<open>b0\<close>, at
    \<open>created b0 + bin_ttl\<close>; afterwards the key holds the serialised bin and carries
    that expiration (a retention window that is not positive puts the timestamp in the
    past, and the key is gone at once).
  \<^item> \<open>create_request\<close> issues two: on the key under which it wrote the request record,
    at \<open>created b + bin_ttl + 2\<close>, and on the index list of \<open>b\<close>, to which it appended
    \<open>i\<close>, at \<open>created b + bin_ttl + 1\<close>. Afterwards the record and the list carry these
    expirations (a timestamp that the clock has reached removes the key at once). The
    details key of \<open>b\<close> is left as it was.
  \<^item> Hence, at every later time \<open>t\<close>: if the index list is still readable at \<open>t\<close>, the
    request record is readable one second later; and, the details key of \<open>b\<close> carrying
    the expiration \<open>created b + bin_ttl\<close> that \<open>create_bin\<close> gives it, if the details
    are still readable at \<open>t\<close>, the index list is readable one second later.
\<close>

theorem expiration_staggering:
  assumes "create_bin M self p w = (b0, w1)"
    and "create_request M self b input w2 = (Inr u, w3)"
  shows "expirations (issued w w1) = [(key_bin self (name b0), created b0 + bin_ttl self)]
       \<and> live w1 (key_bin self (name b0))
           = (if bin_ttl self \<le> 0 then None else Some (RString (Bin_dump M b0)))
       \<and> expiry w1 (key_bin self (name b0))
           = (if bin_ttl self \<le> 0 then None else Some (created b0 + bin_ttl self))
       \<and> expirations (issued w2 w3)
           = [(key_request self (name b) (rnd w2 (pos w2)), created b + bin_ttl self + 2),
              (key_request_list self (name b), created b + bin_ttl self + 1)]
       \<and> live w3 (key_request self (name b) (rnd w2 (pos w2)))
           = (if created b + bin_ttl self + 2 \<le> clock w2 then None
              else Some (RString (Request_dump M \<lparr>req_id = rnd w2 (pos w2), payload = input\<rparr>)))
       \<and> expiry w3 (key_request self (name b) (rnd w2 (pos w2)))
           = (if created b + bin_ttl self + 2 \<le> clock w2 then None
              else Some (created b + bin_ttl self + 2))
       \<and> live w3 (key_request_list self (name b))
           = (if created b + bin_ttl self + 1 \<le> clock w2 then None
              else Some (RList ((case live w2 (key_request_list self (name b)) of
                                  Some (RList xs) \<Rightarrow> xs | _ \<Rightarrow> []) @ [rnd w2 (pos w2)])))
       \<and> expiry w3 (key_request_list self (name b))
           = (if created b + bin_ttl self + 1 \<le> clock w2 then None
              else Some (created b + bin_ttl self + 1))
       \<and> live w3 (key_bin self (name b)) = live w2 (key_bin self (name b))
       \<and> expiry w3 (key_bin self (name b)) = expiry w2 (key_bin self (name b))
       \<and> (\<forall>t. clock w3 \<le> t \<longrightarrow>
            (live (at_time t w3) (key_request_list self (name b)) \<noteq> None \<longrightarrow>
               live (at_time (t + 1) w3) (key_request self (name b) (rnd w2 (pos w2))) \<noteq> None)
          \<and> (expiry w2 (key_bin self (name b)) = Some (created b + bin_ttl self) \<and>
               live (at_time t w3) (key_bin self (name b)) \<noteq> None \<longrightarrow>
               live (at_time (t + 1) w3) (key_request_list self (name b)) \<noteq> None))"
proof -
  let ?kd = "key_bin self (name b)"
  let ?kl = "key_request_list self (name b)"
  let ?kr = "key_request self (name b) (rnd w2 (pos w2))"
  let ?T = "created b + bin_ttl self"
  note cb = create_bin_live [OF assms(1)]
  have a1: "expirations (issued w w1) = [(key_bin self (name b0), created b0 + bin_ttl self)]"
    by (simp add: cb(3))
  have a2: "expirations (issued w2 w3) = [(?kr, ?T + 2), (?kl, ?T + 1)]"
    by (simp add: create_request_Inr_log [OF assms(2)])
  note lr = create_request_Inr_live_request [OF assms(2)]
  note er = create_request_Inr_expiry_request [OF assms(2)]
  note li = create_request_Inr_live_index [OF assms(2)]
  note ei = create_request_Inr_expiry_index [OF assms(2)]
  have ld: "live w3 ?kd = live w2 ?kd"
    by (rule create_request_Inr_live_other [OF assms(2)]) simp_all
  have ed: "expiry w3 ?kd = expiry w2 ?kd"
    by (rule create_request_Inr_expiry_other [OF assms(2)]) simp_all
  have ck: "clock w3 = clock w2" by (rule create_request_Inr_fields(1) [OF assms(2)])
  have h1: "live (at_time (t + 1) w3) ?kr \<noteq> None"
    if "live (at_time t w3) ?kl \<noteq> None" for t
  proof (cases "?T + 1 \<le> clock w2")
    case True
    with li ei have "live w3 ?kl = None" "expiry w3 ?kl = None" by simp_all
    then have "live (at_time t w3) ?kl = None" by (rule live_at_time_gone)
    with that show ?thesis by simp
  next
    case False
    with ei have "expiry w3 ?kl = Some (?T + 1)" by simp
    from live_at_time_deadline [OF this, of t] that have "t < ?T + 1" by simp
    moreover from False er have "expiry w3 ?kr = Some (?T + 2)" by simp
    from live_at_time_deadline [OF this, of "t + 1"]
    have "(live (at_time (t + 1) w3) ?kr \<noteq> None) = (t + 1 < ?T + 2)" .
    ultimately show ?thesis by simp
  qed
  have h2: "live (at_time (t + 1) w3) ?kl \<noteq> None"
    if "clock w3 \<le> t" and "expiry w2 ?kd = Some ?T" and "live (at_time t w3) ?kd \<noteq> None" for t
  proof -
    from that(2) ed have "expiry w3 ?kd = Some ?T" by simp
    from live_at_time_deadline [OF this, of t] that(3) have "t < ?T" by simp
    with that(1) ck have "\<not> ?T + 1 \<le> clock w2" by simp
    with ei have "expiry w3 ?kl = Some (?T + 1)" by simp
    from live_at_time_deadline [OF this, of "t + 1"] \<open>t < ?T\<close> show ?thesis by simp
  qed
  from a1 cb(1,2) a2 lr er li ei ld ed h1 h2 show ?thesis by blast
qed

theorem expiration_staggering_witness:
  "create_bin ex_models ex_storage False ex_world = (ex_bin, ex_world_bin)
   \<and> create_request ex_models ex_storage ex_bin ''hello'' ex_world_bin
       = (Inr (), snd (create_request ex_models ex_storage ex_bin ''hello'' ex_world_bin))
   \<and> expiry ex_world_bin ''requestbin:bins:vxkq2mzp:details'' = Some 1700172800
   \<and> expiry (snd (create_request ex_models ex_storage ex_bin ''hello'' ex_world_bin))
         ''requestbin:bins:vxkq2mzp:details'' = Some 1700172800
   \<and> expiry (snd (create_request ex_models ex_storage ex_bin ''hello'' ex_world_bin))
         ''requestbin:bins:vxkq2mzp:requests'' = Some 1700172801
   \<and> expiry (snd (create_request ex_models ex_storage ex_bin ''hello'' ex_world_bin))
         ''requestbin:bins:vxkq2mzp:requests:a1b2c3'' = Some 1700172802
   \<and> live (snd (create_request ex_models ex_storage ex_bin ''hello'' ex_world_bin))
         ''requestbin:bins:vxkq2mzp:requests:a1b2c3'' = Some (RString ''a1b2c3|hello'')
   \<and> live (snd (create_request ex_models ex_storage ex_bin ''hello'' ex_world_bin))
         ''requestbin:bins:vxkq2mzp:requests'' = Some (RList [''a1b2c3''])
   \<and> live (at_time 1700172799 (snd (create_request ex_models ex_storage ex_bin ''hello'' ex_world_bin)))
         ''requestbin:bins:vxkq2mzp:details'' \<noteq> None
   \<and> live (at_time 1700172800 (snd (create_request ex_models ex_storage ex_bin ''hello'' ex_world_bin)))
         ''requestbin:bins:vxkq2mzp:details'' = None
   \<and> live (at_time 1700172800 (snd (create_request ex_models ex_storage ex_bin ''hello'' ex_world_bin)))
         ''requestbin:bins:vxkq2mzp:requests'' \<noteq> None
   \<and> live (at_time 1700172801 (snd (create_request ex_models ex_storage ex_bin ''hello'' ex_world_bin)))
         ''requestbin:bins:vxkq2mzp:requests'' = None
   \<and> live (at_time 1700172801 (snd (create_request ex_models ex_storage ex_bin ''hello'' ex_world_bin)))
         ''requestbin:bins:vxkq2mzp:requests:a1b2c3'' \<noteq> None"
proof -
  let ?w3 = "snd (create_request ex_models ex_storage ex_bin ''hello'' ex_world_bin)"
  let ?kd = "''requestbin:bins:vxkq2mzp:details''"
  let ?kl = "''requestbin:bins:vxkq2mzp:requests''"
  let ?kr = "''requestbin:bins:vxkq2mzp:requests:a1b2c3''"
  note h1 = ex_create_bin
  note h2 = create_request_pair [OF ex_first_request]
  note T = expiration_staggering [OF h1 h2]
  have dump: "Request_dump ex_models \<lparr>req_id = ''a1b2c3'', payload = ''hello''\<rparr> = ''a1b2c3|hello''"
    by (simp add: ex_models_def field_sep_def)
  from T have e1: "expiry ex_world_bin ?kd = Some 1700172800" by simp
  from T e1 have e2: "expiry ?w3 ?kd = Some 1700172800" by simp
  from T have e3: "expiry ?w3 ?kl = Some 1700172801" by simp
  from T have e4: "expiry ?w3 ?kr = Some 1700172802" by simp
  from T dump have l4: "live ?w3 ?kr = Some (RString ''a1b2c3|hello'')" by simp
  from T have l3: "live ?w3 ?kl = Some (RList [''a1b2c3''])"
    by (simp add: live_ex_world_bin)
  have ck: "clock ?w3 = 1700000000"
    using create_request_Inr_fields(1) [OF h2] by simp
  have d1: "live (at_time 1700172799 ?w3) ?kd \<noteq> None"
    using live_at_time_deadline [OF e2, of 1700172799] by simp
  have d2: "live (at_time 1700172800 ?w3) ?kd = None"
    using live_at_time_deadline [OF e2, of 1700172800] by simp
  have i2: "live (at_time 1700172801 ?w3) ?kl = None"
    using live_at_time_deadline [OF e3, of 1700172801] by simp
  from T have step: "\<forall>t. clock ?w3 \<le> t \<longrightarrow>
      (live (at_time t ?w3) (key_request_list ex_storage (name ex_bin)) \<noteq> None \<longrightarrow>
         live (at_time (t + 1) ?w3)
           (key_request ex_storage (name ex_bin) (rnd ex_world_bin (pos ex_world_bin))) \<noteq> None)
      \<and> (expiry ex_world_bin (key_bin ex_storage (name ex_bin))
             = Some (created ex_bin + bin_ttl ex_storage) \<and>
           live (at_time t ?w3) (key_bin ex_storage (name ex_bin)) \<noteq> None \<longrightarrow>
           live (at_time (t + 1) ?w3) (key_request_list ex_storage (name ex_bin)) \<noteq> None)"
    by blast
  from step [rule_format, of 1700172799] ck e1 d1
  have i1: "live (at_time 1700172800 ?w3) ?kl \<noteq> None" by simp
  from step [rule_format, of 1700172800] ck i1
  have r1: "live (at_time 1700172801 ?w3) ?kr \<noteq> None" by simp
  from h1 h2 e1 e2 e3 e4 l4 l3 d1 d2 i1 i2 r1 show ?thesis by simp
qed

end
